theory Spec2Isabelle
  imports Complex_Main "HOL-Library.Monad_Syntax" "HOL-Library.List_Lexorder" "HOL-Library.Char_ord"
begin

section \<open>Python values\<close>

text \<open>
  The correlation engine of ShadowHorn (\<^verbatim>\<open>backend/openai_correlation.py\<close>) and the risk
  derivation (\<^verbatim>\<open>backend/comprehensive_report.py\<close>) work on the values \<^verbatim>\<open>json.loads\<close>
  produces: \<^verbatim>\<open>None\<close>, booleans, integers, floats, strings, lists, and dictionaries with
  string keys. A dictionary is an association list in insertion order; a float is the
  rational number it denotes. Strings are sequences of 8-bit characters; case conversion and
  white space are those of ASCII.

  An operation that raises in Python returns \<open>None\<close> here, and a function that can raise
  lives in the option monad.
\<close>

datatype json =
    JNull
  | JBool bool
  | JInt int
  | JFloat rat
  | JStr string
  | JList "json list"
  | JObj "(string \<times> json) list"

type_synonym pydict = "(string \<times> json) list"

text \<open>\<^verbatim>\<open>bool(v)\<close>, the truth value of \<^verbatim>\<open>if v\<close>, \<^verbatim>\<open>not v\<close>, \<^verbatim>\<open>a or b\<close>.\<close>

fun truthy :: "json \<Rightarrow> bool" where
  "truthy JNull = False"
| "truthy (JBool b) = b"
| "truthy (JInt i) = (i \<noteq> 0)"
| "truthy (JFloat r) = (r \<noteq> 0)"
| "truthy (JStr s) = (s \<noteq> [])"
| "truthy (JList xs) = (xs \<noteq> [])"
| "truthy (JObj kvs) = (kvs \<noteq> [])"

definition py_or :: "json \<Rightarrow> json \<Rightarrow> json" where
  "py_or a b = (if truthy a then a else b)"

fun is_dict :: "json \<Rightarrow> bool" where
  "is_dict (JObj kvs) = True"
| "is_dict v = False"

fun is_list :: "json \<Rightarrow> bool" where
  "is_list (JList xs) = True"
| "is_list v = False"

fun is_str :: "json \<Rightarrow> bool" where
  "is_str (JStr s) = True"
| "is_str v = False"

fun is_bool :: "json \<Rightarrow> bool" where
  "is_bool (JBool b) = True"
| "is_bool v = False"

subsection \<open>Dictionaries\<close>

text \<open>\<^verbatim>\<open>d.get(k)\<close> and \<^verbatim>\<open>d.get(k, default)\<close> on a dictionary.\<close>

definition dict_get_default :: "pydict \<Rightarrow> string \<Rightarrow> json \<Rightarrow> json" where
  "dict_get_default d k dflt = (case map_of d k of None \<Rightarrow> dflt | Some v \<Rightarrow> v)"

definition dict_get :: "pydict \<Rightarrow> string \<Rightarrow> json" where
  "dict_get d k = dict_get_default d k JNull"

text \<open>\<^verbatim>\<open>d[k] = v\<close>: an existing key keeps its place, a new key goes last.\<close>

fun dict_set :: "pydict \<Rightarrow> string \<Rightarrow> json \<Rightarrow> pydict" where
  "dict_set [] k v = [(k, v)]"
| "dict_set ((k', v') # d) k v = (if k' = k then (k, v) # d else (k', v') # dict_set d k v)"

text \<open>\<^verbatim>\<open>d.setdefault(k, v)\<close>, used for its effect only.\<close>

definition dict_setdefault :: "pydict \<Rightarrow> string \<Rightarrow> json \<Rightarrow> pydict" where
  "dict_setdefault d k v = (if k \<in> set (map fst d) then d else d @ [(k, v)])"

text \<open>
  Method calls on a value of unknown type: \<^verbatim>\<open>v.get(k)\<close>, \<^verbatim>\<open>v.items()\<close> and \<^verbatim>\<open>v.keys()\<close>
  raise AttributeError unless \<open>v\<close> is a dictionary.
\<close>

fun py_get :: "json \<Rightarrow> string \<Rightarrow> json option" where
  "py_get (JObj d) k = Some (dict_get d k)"
| "py_get v k = None"

fun py_items :: "json \<Rightarrow> (string \<times> json) list option" where
  "py_items (JObj d) = Some d"
| "py_items v = None"

fun py_keys :: "json \<Rightarrow> string list option" where
  "py_keys (JObj d) = Some (map fst d)"
| "py_keys v = None"

text \<open>A \<^verbatim>\<open>for\<close> loop whose body can raise: the first exception ends the loop.\<close>

fun for_each :: "('a \<Rightarrow> 's \<Rightarrow> 's option) \<Rightarrow> 'a list \<Rightarrow> 's \<Rightarrow> 's option" where
  "for_each f [] s = Some s"
| "for_each f (x # xs) s = (case f x s of None \<Rightarrow> None | Some s' \<Rightarrow> for_each f xs s')"

subsection \<open>Strings\<close>

definition is_space :: "char \<Rightarrow> bool" where
  "is_space c = (of_char c \<in> {9, 10, 11, 12, 13, 28, 29, 30, 31, 32 :: nat})"

definition lstrip :: "string \<Rightarrow> string" where
  "lstrip s = dropWhile is_space s"

definition strip :: "string \<Rightarrow> string" where
  "strip s = rev (dropWhile is_space (rev (dropWhile is_space s)))"

definition lower_char :: "char \<Rightarrow> char" where
  "lower_char c = (let n = of_char c :: nat in if 65 \<le> n \<and> n \<le> 90 then char_of (n + 32) else c)"

definition upper_char :: "char \<Rightarrow> char" where
  "upper_char c = (let n = of_char c :: nat in if 97 \<le> n \<and> n \<le> 122 then char_of (n - 32) else c)"

definition lower :: "string \<Rightarrow> string" where
  "lower s = map lower_char s"

definition upper :: "string \<Rightarrow> string" where
  "upper s = map upper_char s"

text \<open>\<^verbatim>\<open>s.capitalize()\<close>: the first character in upper case, the others in lower case.\<close>

fun capitalize :: "string \<Rightarrow> string" where
  "capitalize [] = []"
| "capitalize (c # cs) = upper_char c # lower cs"

text \<open>\<^verbatim>\<open>sep.join(parts)\<close>.\<close>

fun join :: "string \<Rightarrow> string list \<Rightarrow> string" where
  "join sep [] = []"
| "join sep [x] = x"
| "join sep (x # y # ys) = x @ sep @ join sep (y # ys)"

text \<open>\<^verbatim>\<open>needle in haystack\<close> on strings.\<close>

fun contains :: "string \<Rightarrow> string \<Rightarrow> bool" where
  "contains [] needle = (needle = [])"
| "contains (c # cs) needle = (take (length needle) (c # cs) = needle \<or> contains cs needle)"

text \<open>Decimal digits of an integer, as \<^verbatim>\<open>str(i)\<close> prints them.\<close>

fun digits10 :: "nat \<Rightarrow> string" where
  "digits10 n = (if n < 10 then [char_of (48 + n)] else digits10 (n div 10) @ [char_of (48 + n mod 10)])"

declare digits10.simps [simp del]

definition str_of_int :: "int \<Rightarrow> string" where
  "str_of_int i = (if i < 0 then CHR ''-'' # digits10 (nat (- i)) else digits10 (nat i))"

text \<open>
  \<^verbatim>\<open>str(v)\<close>, also what an f-string prints for \<^verbatim>\<open>{v}\<close>. The text Python prints for a float,
  a list or a dictionary is the parameter \<open>repr\<close>.
\<close>

fun py_str :: "(json \<Rightarrow> string) \<Rightarrow> json \<Rightarrow> string" where
  "py_str repr (JStr s) = s"
| "py_str repr JNull = ''None''"
| "py_str repr (JBool b) = (if b then ''True'' else ''False'')"
| "py_str repr (JInt i) = str_of_int i"
| "py_str repr v = repr v"

section \<open>Schema coercion and classification\<close>

definition CANONICAL_KEYS :: pydict where
  "CANONICAL_KEYS =
    [(''name'', JNull),
     (''profile_type'', JNull),
     (''about'', JNull),
     (''usernames'', JObj []),
     (''bio'', JNull),
     (''emails'', JList []),
     (''primary_location'', JNull),
     (''posts'', JList []),
     (''repositories'', JList []),
     (''activity_patterns'', JNull),
     (''possible_interests'', JList []),
     (''relationship_graph'', JList []),
     (''behavioral_anomalies'', JList []),
     (''key_timelines'', JList []),
     (''links'', JObj []),
     (''compromised'', JBool False),
     (''summary'', JNull),
     (''llm_analysis'', JNull)]"

fun normalize_list :: "json \<Rightarrow> json list" where
  "normalize_list (JList xs) = xs"
| "normalize_list v = []"

text \<open>
  \<^verbatim>\<open>_ensure_profile_classification(profile)\<close>: fills \<^verbatim>\<open>profile_type\<close> and \<^verbatim>\<open>about\<close>
  when they are missing or empty.
\<close>

definition derive_profile_type :: "string list \<Rightarrow> json \<Rightarrow> string" where
  "derive_profile_type platforms repos =
    (if ''github'' \<in> set platforms \<and> truthy repos then ''developer''
     else if ''linkedin'' \<in> set platforms then ''professional''
     else if ''twitter'' \<in> set platforms \<or> ''reddit'' \<in> set platforms then ''individual''
     else if platforms \<noteq> [] then ''online_profile''
     else ''unknown'')"

definition derive_about :: "(json \<Rightarrow> string) \<Rightarrow> json \<Rightarrow> string list \<Rightarrow> json \<Rightarrow> json \<Rightarrow> string" where
  "derive_about repr name0 platforms repos profile_type =
    (let name = py_or name0 (JStr ''This subject'');
         footprint = (if platforms \<noteq> [] then join '', '' (map capitalize platforms)
                      else ''limited visible platforms'');
         repo_count = (case repos of JList rs \<Rightarrow> length rs | _ \<Rightarrow> 0);
         repo_phrase = (if repo_count \<noteq> 0 then ''with public GitHub repositories''
                        else ''with minimal code exposure'')
     in strip (py_str repr name @ '' appears to be a '' @ py_str repr profile_type
               @ '' active on '' @ footprint @ '' '' @ repo_phrase @ ''.''))"

definition ensure_profile_classification :: "(json \<Rightarrow> string) \<Rightarrow> json \<Rightarrow> json option" where
  "ensure_profile_classification repr profile = do {
     profile_type0 \<leftarrow> py_get profile ''profile_type'';
     about0 \<leftarrow> py_get profile ''about'';
     u \<leftarrow> py_get profile ''usernames'';
     r \<leftarrow> py_get profile ''repositories'';
     let usernames = py_or u (JObj []);
     let repos = py_or r (JList []);
     platforms \<leftarrow> (if is_dict usernames then map_option sort (py_keys usernames) else Some []);
     let profile_type = (if \<not> truthy profile_type0 then JStr (derive_profile_type platforms repos)
                         else profile_type0);
     name \<leftarrow> (if \<not> truthy about0 then py_get profile ''name'' else Some JNull);
     let about = (if \<not> truthy about0 then JStr (derive_about repr name platforms repos profile_type)
                  else about0);
     d \<leftarrow> py_items profile;
     Some (JObj (dict_set (dict_set d ''profile_type'' profile_type) ''about'' about))
   }"

text \<open>One round of the loop over \<^verbatim>\<open>CANONICAL_KEYS.items()\<close> in \<^verbatim>\<open>_coerce_profile_schema\<close>.\<close>

definition coerce_compromised :: "json \<Rightarrow> json \<Rightarrow> json" where
  "coerce_compromised val dflt =
    (case val of
       JBool b \<Rightarrow> JBool b
     | JStr s \<Rightarrow> JBool (lower (strip s) \<in> {''yes'', ''true'', ''1'', ''compromised''})
     | JInt i \<Rightarrow> JBool (i \<noteq> 0)
     | JFloat r \<Rightarrow> JBool (r \<noteq> 0)
     | _ \<Rightarrow> JBool (truthy dflt))"

text \<open>The three groups of keys the loop of \<^verbatim>\<open>_coerce_profile_schema\<close> tests for.\<close>

definition str_list_keys :: "string set" where
  "str_list_keys = {''emails'', ''possible_interests'', ''behavioral_anomalies'', ''key_timelines''}"

definition dict_keys :: "string set" where
  "dict_keys = {''usernames'', ''links''}"

definition list_keys :: "string set" where
  "list_keys = {''posts'', ''repositories'', ''relationship_graph''}"

definition coerce_value :: "(json \<Rightarrow> string) \<Rightarrow> string \<Rightarrow> json \<Rightarrow> json \<Rightarrow> json" where
  "coerce_value repr key dflt val =
    (if key \<in> str_list_keys
       then JList (map (\<lambda>x. JStr (py_str repr x)) (normalize_list val))
     else if key \<in> dict_keys
       then (if is_dict val then val else JObj [])
     else if key \<in> list_keys
       then JList (normalize_list val)
     else if key = ''compromised''
       then coerce_compromised val dflt
     else (if val = JNull then JNull else JStr (py_str repr val)))"

definition coerce_key :: "(json \<Rightarrow> string) \<Rightarrow> json \<Rightarrow> string \<times> json \<Rightarrow> pydict \<Rightarrow> pydict option" where
  "coerce_key repr src kd result = (case kd of (key, dflt) \<Rightarrow> do {
     val \<leftarrow> (if is_dict src then py_get src key else Some JNull);
     Some (dict_set result key (coerce_value repr key dflt val))
   })"

text \<open>One round of the loop over \<^verbatim>\<open>usernames.items()\<close>.\<close>

definition normalise_username :: "(json \<Rightarrow> string) \<Rightarrow> string \<times> json \<Rightarrow> pydict \<Rightarrow> pydict option" where
  "normalise_username repr pd normalised = (case pd of (platform, data) \<Rightarrow>
     if is_dict data then do {
       h \<leftarrow> py_get data ''handle'';
       un \<leftarrow> py_get data ''username'';
       let handle = py_or h un;
       url \<leftarrow> py_get data ''url'';
       bio \<leftarrow> py_get data ''bio'';
       Some (dict_set normalised platform
         (JObj [(''handle'', if handle \<noteq> JNull then handle else JNull), (''url'', url), (''bio'', bio)]))
     }
     else Some (dict_set normalised platform
         (JObj [(''handle'', if data \<noteq> JNull then JStr (py_str repr data) else JNull),
                (''url'', JNull), (''bio'', JNull)])))"

definition unwrap_profile :: "json \<Rightarrow> json option" where
  "unwrap_profile raw =
    (if is_dict raw then do {
       p \<leftarrow> py_get raw ''profile'';
       if is_dict p then Some p
       else do {
         r \<leftarrow> py_get raw ''result'';
         if is_dict r then Some r else Some raw
       }
     }
     else Some raw)"

definition coerce_profile_schema :: "(json \<Rightarrow> string) \<Rightarrow> json \<Rightarrow> json option" where
  "coerce_profile_schema repr raw = do {
     profile \<leftarrow> unwrap_profile raw;
     let src = (if is_dict profile then profile else JObj []);
     result \<leftarrow> for_each (coerce_key repr src) CANONICAL_KEYS [];
     let usernames = py_or (dict_get result ''usernames'') (JObj []);
     result \<leftarrow> (if is_dict usernames then do {
                   items \<leftarrow> py_items usernames;
                   normalised \<leftarrow> for_each (normalise_username repr) items [];
                   Some (dict_set result ''usernames'' (JObj normalised))
                 }
                 else Some result);
     ensure_profile_classification repr (JObj result)
   }"

text \<open>The canonical shape of a Profile: the eighteen keys, each with a value of its type.\<close>

fun is_str_list :: "json \<Rightarrow> bool" where
  "is_str_list (JList xs) = list_all is_str xs"
| "is_str_list v = False"

definition field_type_ok :: "string \<Rightarrow> json \<Rightarrow> bool" where
  "field_type_ok key v =
    (if key \<in> str_list_keys
       then is_list v \<and> is_str_list v
     else if key \<in> dict_keys then is_dict v
     else if key \<in> list_keys then is_list v
     else if key = ''compromised'' then is_bool v
     else (is_str v \<or> v = JNull))"

definition schema_ok :: "json \<Rightarrow> bool" where
  "schema_ok p =
    (case p of
       JObj kvs \<Rightarrow> map fst kvs = map fst CANONICAL_KEYS \<and> list_all (\<lambda>(k, v). field_type_ok k v) kvs
     | _ \<Rightarrow> False)"

text \<open>The same shape, for a dictionary under construction.\<close>

definition profile_ok :: "pydict \<Rightarrow> bool" where
  "profile_ok d = (map fst d = map fst CANONICAL_KEYS \<and> list_all (\<lambda>(k, v). field_type_ok k v) d)"

text \<open>
  The shape of a normalised \<^verbatim>\<open>usernames\<close> entry, and the entries a second coercion leaves
  alone: those whose handle is \<^verbatim>\<open>None\<close> or truthy.
\<close>

definition username_entry_shape :: "json \<Rightarrow> bool" where
  "username_entry_shape e = (case e of JObj d \<Rightarrow> map fst d = [''handle'', ''url'', ''bio''] | _ \<Rightarrow> False)"

definition handle_settled :: "json \<Rightarrow> bool" where
  "handle_settled e = (case py_get e ''handle'' of Some h \<Rightarrow> h = JNull \<or> truthy h | None \<Rightarrow> False)"

definition handles_settled :: "json \<Rightarrow> bool" where
  "handles_settled p =
    (case py_get p ''usernames'' of
       Some (JObj us) \<Rightarrow> list_all (\<lambda>kv. handle_settled (snd kv)) us
     | _ \<Rightarrow> False)"

text \<open>The input on which a second coercion changes the result.\<close>

definition idem_cex :: json where
  "idem_cex = JObj [(''usernames'', JObj [(''github'', JStr [])])]"

section \<open>Properties\<close>

subsection \<open>Dictionaries and loops\<close>

lemma dict_get_dict_set:
  "dict_get (dict_set d k v) k' = (if k' = k then v else dict_get d k')"
  by (induction d) (auto simp: dict_get_def dict_get_default_def)

lemma keys_dict_set_cases:
  "map fst (dict_set d k v) = (if k \<in> set (map fst d) then map fst d else map fst d @ [k])"
  by (induction d) force+

lemma keys_dict_set_set: "set (map fst (dict_set d k v)) = insert k (set (map fst d))"
  by (auto simp: keys_dict_set_cases simp del: set_map)

lemma distinct_dict_set: "distinct (map fst d) \<Longrightarrow> distinct (map fst (dict_set d k v))"
  by (simp add: keys_dict_set_cases del: set_map)

lemma dict_set_dict_get: "k \<in> set (map fst d) \<Longrightarrow> dict_set d k (dict_get d k) = d"
  by (induction d) (force simp: dict_get_def dict_get_default_def)+

lemma dict_get_absent: "k \<notin> set (map fst d) \<Longrightarrow> dict_get d k = JNull"
  by (induction d) (auto simp: dict_get_def dict_get_default_def)

lemma map_dict_get_keys:
  "distinct (map fst d) \<Longrightarrow> map (\<lambda>k. (k, dict_get d k)) (map fst d) = d"
proof (induction d)
  case Nil then show ?case by simp
next
  case (Cons a d)
  obtain k v where a: "a = (k, v)" by (cases a)
  have fresh: "k \<notin> set (map fst d)" and dist: "distinct (map fst d)" using Cons.prems a by simp_all
  have h: "dict_get ((k, v) # d) k = v" by (simp add: dict_get_def dict_get_default_def)
  have "\<And>k'. k' \<in> set (map fst d) \<Longrightarrow> dict_get ((k, v) # d) k' = dict_get d k'"
    using fresh by (auto simp: dict_get_def dict_get_default_def)
  then have eq: "map (\<lambda>k'. (k', dict_get ((k, v) # d) k')) (map fst d) = map (\<lambda>k'. (k', dict_get d k')) (map fst d)"
    by (intro map_cong) auto
  have "map (\<lambda>k'. (k', dict_get (a # d) k')) (map fst (a # d))
        = (k, v) # map (\<lambda>k'. (k', dict_get ((k, v) # d) k')) (map fst d)"
    unfolding a by (simp only: list.map fst_conv h)
  also have "\<dots> = (k, v) # d" unfolding eq using Cons.IH[OF dist] by (simp only:)
  finally show ?case by (simp only: a)
qed

lemma strip_nonempty: "c \<in> set s \<Longrightarrow> \<not> is_space c \<Longrightarrow> strip s \<noteq> []"
proof -
  assume c: "c \<in> set s" "\<not> is_space c"
  then have "dropWhile is_space s \<noteq> []" by (auto simp: dropWhile_eq_Nil_conv)
  then have "hd (dropWhile is_space s) \<in> set (rev (dropWhile is_space s))" by simp
  moreover have "\<not> is_space (hd (dropWhile is_space s))"
    using \<open>dropWhile is_space s \<noteq> []\<close> hd_dropWhile by blast
  ultimately have "dropWhile is_space (rev (dropWhile is_space s)) \<noteq> []"
    by (auto simp: dropWhile_eq_Nil_conv)
  then show ?thesis by (simp add: strip_def)
qed

lemma derive_about_nonempty: "derive_about repr name platforms repos pt \<noteq> []"
  unfolding derive_about_def Let_def
  by (rule strip_nonempty[where c = "CHR ''a''"]) (simp_all add: is_space_def)

lemma derive_profile_type_nonempty: "derive_profile_type platforms repos \<noteq> []"
  by (simp add: derive_profile_type_def)

lemma dict_set_fresh: "k \<notin> fst ` set d \<Longrightarrow> dict_set d k v = d @ [(k, v)]"
  by (induction d) auto

lemma keys_dict_set: "k \<in> set (map fst d) \<Longrightarrow> map fst (dict_set d k v) = map fst d"
  by (induction d) force+

lemma list_all_dict_set:
  "list_all P d \<Longrightarrow> P (k, v) \<Longrightarrow> list_all P (dict_set d k v)"
  by (induction d) auto

lemma for_each_dict_set:
  assumes "\<And>kd acc. kd \<in> set ks \<Longrightarrow> f kd acc = Some (dict_set acc (fst kd) (g kd))"
    and "distinct (map fst ks)" and "fst ` set acc \<inter> fst ` set ks = {}"
  shows "for_each f ks acc = Some (acc @ map (\<lambda>kd. (fst kd, g kd)) ks)"
  using assms
proof (induction ks arbitrary: acc)
  case Nil then show ?case by simp
next
  case (Cons a ks)
  have fresh: "fst a \<notin> fst ` set acc" using Cons.prems(3) by auto
  have step: "f a acc = Some (acc @ [(fst a, g a)])"
    using Cons.prems(1)[of a acc] fresh by (simp add: dict_set_fresh)
  have "for_each f ks (acc @ [(fst a, g a)]) = Some ((acc @ [(fst a, g a)]) @ map (\<lambda>kd. (fst kd, g kd)) ks)"
  proof (rule Cons.IH)
    show "\<And>kd acc. kd \<in> set ks \<Longrightarrow> f kd acc = Some (dict_set acc (fst kd) (g kd))"
      using Cons.prems(1) by simp
    show "distinct (map fst ks)" using Cons.prems(2) by simp
    show "fst ` set (acc @ [(fst a, g a)]) \<inter> fst ` set ks = {}"
      using Cons.prems(2,3) by auto
  qed
  then show ?case using step by simp
qed

lemma field_type_ok_coerce_value: "field_type_ok key (coerce_value repr key dflt val)"
  by (cases val) (auto simp: field_type_ok_def coerce_value_def coerce_compromised_def list_all_iff)

lemma distinct_CANONICAL_KEYS: "distinct (map fst CANONICAL_KEYS)"
  by (simp add: CANONICAL_KEYS_def)


lemma coerce_key_canonical: "kd \<in> set CANONICAL_KEYS \<Longrightarrow> coerce_key repr (JObj d) kd acc = Some (dict_set acc (fst kd) (coerce_value repr (fst kd) (snd kd) (dict_get d (fst kd))))"
  by (cases kd) (simp add: coerce_key_def)

lemma coerce_loop:
  "for_each (coerce_key repr (JObj d)) CANONICAL_KEYS [] =
     Some (map (\<lambda>kd. (fst kd, coerce_value repr (fst kd) (snd kd) (dict_get d (fst kd)))) CANONICAL_KEYS)"
  using for_each_dict_set[where f = "coerce_key repr (JObj d)" and ks = CANONICAL_KEYS and acc = "[]"
      and g = "\<lambda>kd. coerce_value repr (fst kd) (snd kd) (dict_get d (fst kd))"]
    coerce_key_canonical distinct_CANONICAL_KEYS by simp


lemma normalise_username_Some:
  "\<exists>n. normalise_username repr a acc = Some n"
  by (cases a; cases "snd a") (simp_all add: normalise_username_def Let_def)

lemma for_each_normalise_Some:
  "\<exists>n. for_each (normalise_username repr) items acc = Some n"
proof (induction items arbitrary: acc)
  case Nil show ?case by simp
next
  case (Cons a items)
  obtain acc' where "normalise_username repr a acc = Some acc'"
    using normalise_username_Some by blast
  then show ?case using Cons[of acc'] by simp
qed

lemma profile_ok_dict_set:
  "profile_ok d \<Longrightarrow> k \<in> set (map fst CANONICAL_KEYS) \<Longrightarrow> field_type_ok k v \<Longrightarrow> profile_ok (dict_set d k v)"
  by (simp add: profile_ok_def keys_dict_set list_all_dict_set)

lemma profile_ok_dict_get:
  assumes "profile_ok d" and "k \<in> set (map fst CANONICAL_KEYS)"
  shows "field_type_ok k (dict_get d k)"
proof -
  have "set (map fst d) = set (map fst CANONICAL_KEYS)" using assms(1) by (simp add: profile_ok_def)
  then have "k \<in> fst ` set d" using assms(2) by simp
  then obtain v where v: "map_of d k = Some v"
    by (metis domD dom_map_of_conv_image_fst)
  then have "(k, v) \<in> set d" by (rule map_of_SomeD)
  then have "field_type_ok k v" using assms(1) by (auto simp: profile_ok_def list_all_iff)
  then show ?thesis using v by (simp add: dict_get_def dict_get_default_def)
qed

lemma profile_ok_coerce_loop:
  "profile_ok (map (\<lambda>kd. (fst kd, coerce_value repr (fst kd) (snd kd) (dict_get d (fst kd)))) CANONICAL_KEYS)"
  by (simp add: profile_ok_def list_all_iff field_type_ok_coerce_value comp_def)

lemma unwrap_profile_Some: "\<exists>p. unwrap_profile raw = Some p"
  by (cases raw) (simp_all add: unwrap_profile_def)

lemma classification_ok:
  assumes "profile_ok d"
  shows "\<exists>p. ensure_profile_classification repr (JObj d) = Some p \<and> schema_ok p"
proof -
  let ?pt0 = "dict_get d ''profile_type''"
  let ?ab0 = "dict_get d ''about''"
  have k1: "''profile_type'' \<in> set (map fst CANONICAL_KEYS)" by (simp add: CANONICAL_KEYS_def)
  have k2: "''about'' \<in> set (map fst CANONICAL_KEYS)" by (simp add: CANONICAL_KEYS_def)
  have pt0: "is_str ?pt0 \<or> ?pt0 = JNull"
    using profile_ok_dict_get[OF assms k1] by (simp add: field_type_ok_def str_list_keys_def dict_keys_def list_keys_def)
  have ab0: "is_str ?ab0 \<or> ?ab0 = JNull"
    using profile_ok_dict_get[OF assms k2] by (simp add: field_type_ok_def str_list_keys_def dict_keys_def list_keys_def)
  have f1: "\<And>v. is_str v \<or> v = JNull \<Longrightarrow> field_type_ok ''profile_type'' v"
    by (simp add: field_type_ok_def str_list_keys_def dict_keys_def list_keys_def)
  have f2: "\<And>v. is_str v \<or> v = JNull \<Longrightarrow> field_type_ok ''about'' v"
    by (simp add: field_type_ok_def str_list_keys_def dict_keys_def list_keys_def)
  have ok: "\<And>pt ab. is_str pt \<or> pt = JNull \<Longrightarrow> is_str ab \<or> ab = JNull \<Longrightarrow>
     schema_ok (JObj (dict_set (dict_set d ''profile_type'' pt) ''about'' ab))"
    using profile_ok_dict_set[OF profile_ok_dict_set[OF assms k1 f1] k2 f2]
    by (simp add: schema_ok_def profile_ok_def)
  show ?thesis
    unfolding ensure_profile_classification_def
    using pt0 ab0 by (cases "py_or (dict_get d ''usernames'') (JObj [])") (auto simp: Let_def intro!: ok)
qed

text \<open>
  Claim C1. For every JSON value \<open>x\<close> (also \<^verbatim>\<open>null\<close>, \<^verbatim>\<open>{}\<close>, a list, nested garbage)
  \<^verbatim>\<open>_coerce_profile_schema(x)\<close> raises nothing and returns a dictionary whose keys are
  exactly the eighteen canonical keys, each bound to a value of its type: a list for the
  list fields, a dictionary for \<^verbatim>\<open>usernames\<close> and \<^verbatim>\<open>links\<close>, a boolean for
  \<^verbatim>\<open>compromised\<close>, a string or \<^verbatim>\<open>None\<close> for the scalar fields.
\<close>

theorem coerce_profile_schema_total:
  "\<exists>p. coerce_profile_schema repr x = Some p \<and> schema_ok p"
proof -
  obtain profile where u: "unwrap_profile x = Some profile" using unwrap_profile_Some by blast
  define src where "src = (if is_dict profile then profile else JObj [])"
  obtain d where d: "src = JObj d" by (cases profile) (simp_all add: src_def)
  define r1 where "r1 = map (\<lambda>kd. (fst kd, coerce_value repr (fst kd) (snd kd) (dict_get d (fst kd)))) CANONICAL_KEYS"
  have loop: "for_each (coerce_key repr src) CANONICAL_KEYS [] = Some r1"
    by (simp add: d r1_def coerce_loop)
  have ok1: "profile_ok r1" by (simp add: r1_def profile_ok_coerce_loop)
  have ku: "''usernames'' \<in> set (map fst CANONICAL_KEYS)" by (simp add: CANONICAL_KEYS_def)
  have "field_type_ok ''usernames'' (dict_get r1 ''usernames'')" using ok1 ku by (rule profile_ok_dict_get)
  then have "is_dict (dict_get r1 ''usernames'')" by (simp add: field_type_ok_def str_list_keys_def dict_keys_def list_keys_def)
  then have "is_dict (py_or (dict_get r1 ''usernames'') (JObj []))" by (simp add: py_or_def)
  then obtain us where us: "py_or (dict_get r1 ''usernames'') (JObj []) = JObj us"
    by (cases "py_or (dict_get r1 ''usernames'') (JObj [])") simp_all
  obtain n where n: "for_each (normalise_username repr) us [] = Some n"
    using for_each_normalise_Some by blast
  have "field_type_ok ''usernames'' (JObj n)" by (simp add: field_type_ok_def str_list_keys_def dict_keys_def list_keys_def)
  then have ok2: "profile_ok (dict_set r1 ''usernames'' (JObj n))"
    using ok1 ku by (simp add: profile_ok_dict_set)
  have "coerce_profile_schema repr x = ensure_profile_classification repr (JObj (dict_set r1 ''usernames'' (JObj n)))"
    unfolding coerce_profile_schema_def using u loop us n by (simp add: src_def[symmetric])
  then show ?thesis using classification_ok[OF ok2] by simp
qed

subsection \<open>Coercion: username entries\<close>

lemma entry_shape_cases:
  assumes "username_entry_shape e"
  obtains h u b where "e = JObj [(''handle'', h), (''url'', u), (''bio'', b)]"
proof -
  obtain d where d: "e = JObj d" "map fst d = [''handle'', ''url'', ''bio'']"
    using assms by (cases e) (simp_all add: username_entry_shape_def)
  then obtain h u b where "d = [(''handle'', h), (''url'', u), (''bio'', b)]"
    by (auto simp: map_eq_Cons_conv)
  then show ?thesis using d that by simp
qed

lemma normalise_username_shape:
  "normalise_username repr (k, v) acc = Some n \<Longrightarrow> \<exists>e. n = dict_set acc k e \<and> username_entry_shape e"
  by (cases v) (auto simp: normalise_username_def username_entry_shape_def Let_def)

lemma for_each_normalise_inv:
  "for_each (normalise_username repr) items acc = Some n \<Longrightarrow> distinct (map fst acc) \<Longrightarrow>
   list_all (\<lambda>kv. username_entry_shape (snd kv)) acc \<Longrightarrow>
   distinct (map fst n) \<and> list_all (\<lambda>kv. username_entry_shape (snd kv)) n"
proof (induction items arbitrary: acc)
  case Nil then show ?case by simp
next
  case (Cons a items)
  obtain k v where a: "a = (k, v)" by (cases a)
  obtain acc' where s: "normalise_username repr (k, v) acc = Some acc'"
    using normalise_username_Some by blast
  then obtain e where e: "acc' = dict_set acc k e" "username_entry_shape e"
    using normalise_username_shape by blast
  have "distinct (map fst acc')" using e Cons.prems(2) by (simp add: distinct_dict_set)
  moreover have "list_all (\<lambda>kv. username_entry_shape (snd kv)) acc'"
    using e Cons.prems(3) by (simp add: list_all_dict_set)
  moreover have "for_each (normalise_username repr) items acc' = Some n"
    using Cons.prems(1) s a by simp
  ultimately show ?case using Cons.IH by blast
qed

lemma normalise_username_settled:
  assumes "username_entry_shape e" "handle_settled e"
  shows "normalise_username repr (k, e) acc = Some (dict_set acc k e)"
proof -
  obtain h u b where e: "e = JObj [(''handle'', h), (''url'', u), (''bio'', b)]"
    using assms(1) by (rule entry_shape_cases)
  have h: "h = JNull \<or> truthy h"
    using assms(2) by (simp add: e handle_settled_def dict_get_def dict_get_default_def)
  have "py_or h JNull = h" using h by (auto simp: py_or_def)
  then show ?thesis
    by (simp add: e normalise_username_def dict_get_def dict_get_default_def Let_def)
qed

lemma for_each_normalise_settled:
  assumes "distinct (map fst n)"
    and "list_all (\<lambda>kv. username_entry_shape (snd kv) \<and> handle_settled (snd kv)) n"
  shows "for_each (normalise_username repr) n [] = Some n"
proof -
  have "for_each (normalise_username repr) n [] = Some ([] @ map (\<lambda>kd. (fst kd, snd kd)) n)"
  proof (rule for_each_dict_set)
    fix kd acc assume "kd \<in> set n"
    then have "username_entry_shape (snd kd)" "handle_settled (snd kd)"
      using assms(2) by (auto simp: list_all_iff)
    then show "normalise_username repr kd acc = Some (dict_set acc (fst kd) (snd kd))"
      using normalise_username_settled[of "snd kd" repr "fst kd" acc] by simp
  qed (use assms(1) in simp_all)
  then show ?thesis by simp
qed

subsection \<open>Coercion: fixed points\<close>

lemma str_list_fixed: "list_all is_str xs \<Longrightarrow> map (\<lambda>x. JStr (py_str repr x)) xs = xs"
proof (rule map_idI)
  fix x assume "list_all is_str xs" "x \<in> set xs"
  then have "is_str x" by (simp add: list_all_iff)
  then show "JStr (py_str repr x) = x" by (cases x) simp_all
qed

lemma coerce_value_fixed: "field_type_ok key v \<Longrightarrow> coerce_value repr key dflt v = v"
  by (cases v) (auto simp: field_type_ok_def coerce_value_def coerce_compromised_def str_list_fixed
      split: if_splits)

lemma coerce_loop_fixed:
  assumes "profile_ok P"
  shows "for_each (coerce_key repr (JObj P)) CANONICAL_KEYS [] = Some P"
proof -
  have keys: "map fst P = map fst CANONICAL_KEYS" using assms by (simp add: profile_ok_def)
  have "map (\<lambda>kd. (fst kd, coerce_value repr (fst kd) (snd kd) (dict_get P (fst kd)))) CANONICAL_KEYS
        = map (\<lambda>kd. (fst kd, dict_get P (fst kd))) CANONICAL_KEYS"
    by (intro map_cong refl) (simp add: coerce_value_fixed profile_ok_dict_get[OF assms])
  also have "\<dots> = map (\<lambda>k. (k, dict_get P k)) (map fst P)"
    by (simp add: keys comp_def)
  also have "\<dots> = P"
    by (rule map_dict_get_keys) (simp add: keys distinct_CANONICAL_KEYS)
  finally show ?thesis by (simp add: coerce_loop)
qed

lemma unwrap_profile_fixed:
  assumes "profile_ok P" shows "unwrap_profile (JObj P) = Some (JObj P)"
proof -
  have keys: "map fst P = map fst CANONICAL_KEYS" using assms by (simp add: profile_ok_def)
  have a: "''profile'' \<notin> set (map fst P)" and b: "''result'' \<notin> set (map fst P)"
    unfolding keys by (simp_all add: CANONICAL_KEYS_def)
  have "dict_get P ''profile'' = JNull" "dict_get P ''result'' = JNull"
    using dict_get_absent[OF a] dict_get_absent[OF b] by blast+
  then show ?thesis by (simp add: unwrap_profile_def)
qed

lemma classification_fixed:
  assumes "profile_ok P" "truthy (dict_get P ''profile_type'')" "truthy (dict_get P ''about'')"
  shows "ensure_profile_classification repr (JObj P) = Some (JObj P)"
proof -
  have keys: "map fst P = map fst CANONICAL_KEYS" using assms by (simp add: profile_ok_def)
  have k: "''profile_type'' \<in> set (map fst P)" "''about'' \<in> set (map fst P)"
    unfolding keys by (simp_all add: CANONICAL_KEYS_def)
  have "dict_set (dict_set P ''profile_type'' (dict_get P ''profile_type'')) ''about'' (dict_get P ''about'') = P"
    using k by (simp only: dict_set_dict_get)
  then show ?thesis
    unfolding ensure_profile_classification_def using assms(2,3)
    by (cases "py_or (dict_get P ''usernames'') (JObj [])") (simp_all add: Let_def)
qed

lemma coerce_fixed_point:
  assumes ok: "profile_ok P"
    and us: "dict_get P ''usernames'' = JObj n" "distinct (map fst n)"
      "list_all (\<lambda>kv. username_entry_shape (snd kv) \<and> handle_settled (snd kv)) n"
    and pt: "truthy (dict_get P ''profile_type'')" and ab: "truthy (dict_get P ''about'')"
  shows "coerce_profile_schema repr (JObj P) = Some (JObj P)"
proof -
  have keys: "map fst P = map fst CANONICAL_KEYS" using ok by (simp add: profile_ok_def)
  have ku: "''usernames'' \<in> set (map fst P)" unfolding keys by (simp add: CANONICAL_KEYS_def)
  have po: "py_or (JObj n) (JObj []) = JObj n" by (cases n) (simp_all add: py_or_def)
  have n: "for_each (normalise_username repr) n [] = Some n"
    using us(2,3) by (rule for_each_normalise_settled)
  have same: "dict_set P ''usernames'' (JObj n) = P"
    using dict_set_dict_get[OF ku] us(1) by simp
  show ?thesis
    unfolding coerce_profile_schema_def
    by (simp add: unwrap_profile_fixed[OF ok] coerce_loop_fixed[OF ok] us(1) po n same
        classification_fixed[OF ok pt ab])
qed

end
